theory Spec2Isabelle
  imports Main
begin

section \<open>The environment: a file system with injected faults\<close>

text \<open>
  The package \<open>rotatefile\<close> keeps all of its own state in the struct \<open>RotateFile\<close>;
  everything else it touches is the file system, through \<open>os.OpenFile\<close>, \<open>os.Stat\<close>,
  \<open>os.Remove\<close>, \<open>os.Rename\<close> and the methods \<open>Write\<close>, \<open>Close\<close>, \<open>Stat\<close> of
  \<open>*os.File\<close>. The file system is a directory (names to inodes) and an inode store
  (content and modification time). A rename moves a directory entry and leaves the
  inode alone; a file handle refers to an inode, not to a name.

  Each system call may fail for reasons outside the program. The world carries a
  schedule of faults: every system call takes the head of the schedule (an exhausted
  schedule means no fault), is appended to the trace and advances the logical clock.
  Go's \<open>int\<close> is 64 bits wide; sizes and counters stay far below \<open>2 ^ 63\<close>, so they are
  modelled as \<open>int\<close>.
\<close>

type_synonym bytes = string
type_synonym ino = nat
type_synonym time = nat

datatype error = ErrInvalid | ErrClosed | ENOENT | EIO

datatype fault = NoFault | Fault nat

datatype event =
    EvOpen string
  | EvWrite bytes
  | EvClose
  | EvFStat
  | EvStat string
  | EvRemove string
  | EvRename string string

record world =
  names :: "string \<Rightarrow> ino option"
  data :: "ino \<Rightarrow> bytes"
  mtime :: "ino \<Rightarrow> time"
  next_ino :: ino
  clock :: time
  faults :: "fault list"
  trace :: "event list"

text \<open>
  The object behind a \<open>*os.File\<close>: the inode it was opened on, and whether it has been
  closed. A \<open>RotateFile\<close> is the only owner of its file object, so the object is stored in
  the field itself; \<open>None\<close> is the nil pointer.
\<close>

record handle =
  h_ino :: ino
  h_closed :: bool

definition next_fault :: "world \<Rightarrow> fault" where
  "next_fault w = (case faults w of [] \<Rightarrow> NoFault | x # _ \<Rightarrow> x)"

definition sys :: "event \<Rightarrow> world \<Rightarrow> world" where
  "sys ev w = w\<lparr>clock := Suc (clock w), faults := tl (faults w), trace := trace w @ [ev]\<rparr>"

text \<open>\<open>os.Stat(name)\<close>: only the error is used by the package.\<close>

definition os_Stat :: "string \<Rightarrow> world \<Rightarrow> error option \<times> world" where
  "os_Stat name w =
     (case names w name of
        None \<Rightarrow> (Some ENOENT, sys (EvStat name) w)
      | Some i \<Rightarrow>
          (case next_fault w of
             Fault k \<Rightarrow> (Some EIO, sys (EvStat name) w)
           | NoFault \<Rightarrow> (None, sys (EvStat name) w)))"

definition os_Remove :: "string \<Rightarrow> world \<Rightarrow> error option \<times> world" where
  "os_Remove name w =
     (case names w name of
        None \<Rightarrow> (Some ENOENT, sys (EvRemove name) w)
      | Some i \<Rightarrow>
          (case next_fault w of
             Fault k \<Rightarrow> (Some EIO, sys (EvRemove name) w)
           | NoFault \<Rightarrow> (None, (sys (EvRemove name) w)\<lparr>names := (names w)(name := None)\<rparr>)))"

text \<open>\<open>os.Rename(src, dst)\<close> replaces an existing \<open>dst\<close>.\<close>

definition os_Rename :: "string \<Rightarrow> string \<Rightarrow> world \<Rightarrow> error option \<times> world" where
  "os_Rename src dst w =
     (case names w src of
        None \<Rightarrow> (Some ENOENT, sys (EvRename src dst) w)
      | Some i \<Rightarrow>
          (case next_fault w of
             Fault k \<Rightarrow> (Some EIO, sys (EvRename src dst) w)
           | NoFault \<Rightarrow>
               (if src = dst then (None, sys (EvRename src dst) w)
                else (None, (sys (EvRename src dst) w)
                       \<lparr>names := (names w)(dst := Some i, src := None)\<rparr>))))"

text \<open>
  \<open>os.OpenFile(name, os.O_WRONLY|os.O_CREATE|os.O_APPEND, 0644)\<close>: an existing file is
  opened as it is, a missing one is created empty on a fresh inode.
\<close>

definition os_OpenFile_append :: "string \<Rightarrow> world \<Rightarrow> (error + handle) \<times> world" where
  "os_OpenFile_append name w =
     (case next_fault w of
        Fault k \<Rightarrow> (Inl EIO, sys (EvOpen name) w)
      | NoFault \<Rightarrow>
          (case names w name of
             Some i \<Rightarrow> (Inr \<lparr>h_ino = i, h_closed = False\<rparr>, sys (EvOpen name) w)
           | None \<Rightarrow>
               (Inr \<lparr>h_ino = next_ino w, h_closed = False\<rparr>,
                (sys (EvOpen name) w)
                  \<lparr>names := (names w)(name := Some (next_ino w)),
                   data := (data w)(next_ino w := []),
                   mtime := (mtime w)(next_ino w := clock w),
                   next_ino := Suc (next_ino w)\<rparr>)))"

text \<open>
  \<open>os.OpenFile(name, os.O_WRONLY|os.O_TRUNC, 0644)\<close>: no \<open>O_CREATE\<close>, so a missing file is
  an error; an existing one is emptied.
\<close>

definition os_OpenFile_trunc :: "string \<Rightarrow> world \<Rightarrow> (error + handle) \<times> world" where
  "os_OpenFile_trunc name w =
     (case names w name of
        None \<Rightarrow> (Inl ENOENT, sys (EvOpen name) w)
      | Some i \<Rightarrow>
          (case next_fault w of
             Fault k \<Rightarrow> (Inl EIO, sys (EvOpen name) w)
           | NoFault \<Rightarrow>
               (Inr \<lparr>h_ino = i, h_closed = False\<rparr>,
                (sys (EvOpen name) w)
                  \<lparr>data := (data w)(i := []), mtime := (mtime w)(i := clock w)\<rparr>)))"

text \<open>
  \<open>(*os.File).Write(b)\<close> on a handle opened with \<open>O_APPEND\<close>: the bytes go to the end of
  the inode. A nil or closed handle fails without a system call. A fault \<open>Fault k\<close> makes
  the call fail after \<open>k\<close> bytes (at most all of them) have been written.
\<close>

definition file_Write :: "handle option \<Rightarrow> bytes \<Rightarrow> world \<Rightarrow> (int \<times> error option) \<times> world" where
  "file_Write ho b w =
     (case ho of
        None \<Rightarrow> ((0, Some ErrInvalid), w)
      | Some h \<Rightarrow>
          (if h_closed h then ((0, Some ErrClosed), w)
           else
             (case next_fault w of
                NoFault \<Rightarrow>
                  ((int (length b), None),
                   (sys (EvWrite b) w)
                     \<lparr>data := (data w)(h_ino h := data w (h_ino h) @ b),
                      mtime := (mtime w)(h_ino h := (if b = [] then mtime w (h_ino h) else clock w))\<rparr>)
              | Fault k \<Rightarrow>
                  ((int (min k (length b)), Some EIO),
                   (sys (EvWrite b) w)
                     \<lparr>data := (data w)(h_ino h := data w (h_ino h) @ take k b),
                      mtime := (mtime w)(h_ino h := (if take k b = [] then mtime w (h_ino h) else clock w))\<rparr>))))"

text \<open>\<open>(*os.File).Close()\<close>: the handle is closed afterwards, whether or not the call failed.\<close>

definition file_Close :: "handle option \<Rightarrow> world \<Rightarrow> error option \<times> handle option \<times> world" where
  "file_Close ho w =
     (case ho of
        None \<Rightarrow> (Some ErrInvalid, None, w)
      | Some h \<Rightarrow>
          (if h_closed h then (Some ErrClosed, Some h, w)
           else
             (case next_fault w of
                NoFault \<Rightarrow> (None, Some (h\<lparr>h_closed := True\<rparr>), sys EvClose w)
              | Fault k \<Rightarrow> (Some EIO, Some (h\<lparr>h_closed := True\<rparr>), sys EvClose w))))"

text \<open>\<open>(*os.File).Stat()\<close>: size and modification time of the inode.\<close>

definition file_Stat :: "handle option \<Rightarrow> world \<Rightarrow> (error + (int \<times> time)) \<times> world" where
  "file_Stat ho w =
     (case ho of
        None \<Rightarrow> (Inl ErrInvalid, w)
      | Some h \<Rightarrow>
          (if h_closed h then (Inl ErrClosed, w)
           else
             (case next_fault w of
                Fault k \<Rightarrow> (Inl EIO, sys EvFStat w)
              | NoFault \<Rightarrow>
                  (Inr (int (length (data w (h_ino h))), mtime w (h_ino h)), sys EvFStat w))))"

text \<open>\<open>time.Now()\<close> reads the logical clock.\<close>

definition time_Now :: "world \<Rightarrow> time" where
  "time_Now w = clock w"

section \<open>The package\<close>

subsection \<open>Names of the backups\<close>

text \<open>\<open>fmt.Sprintf("%s.%d", name, i)\<close> for \<open>i \<ge> 0\<close>: the name, a dot, \<open>i\<close> in decimal.\<close>

definition digit_char :: "nat \<Rightarrow> char" where
  "digit_char d = ''0123456789'' ! d"

fun itoa :: "nat \<Rightarrow> string" where
  "itoa n = (if n < 10 then [digit_char n] else itoa (n div 10) @ [digit_char (n mod 10)])"

declare itoa.simps [simp del]

definition backup_name :: "string \<Rightarrow> nat \<Rightarrow> string" where
  "backup_name name i = name @ ''.'' @ itoa i"

subsection \<open>The sink\<close>

record RotateFile =
  Backup :: int
  CapLimit :: int
  CapUsing :: int
  File :: "handle option"
  Name :: string
  UpdateAt :: time

text \<open>
  A call either returns or panics. The Go functions return a pair \<open>(n, err)\<close>; a panic is
  the run-time slice-bounds panic or a panic raised with an error value.
\<close>

datatype panic = SliceBounds | PanicErr error

datatype 'a result = Return 'a | Panic panic

definition isFileExist :: "string \<Rightarrow> world \<Rightarrow> bool \<times> world" where
  "isFileExist name w = (case os_Stat name w of (err, w1) \<Rightarrow> (err = None, w1))"

text \<open>
  \<open>OpenWronlyTrunca\<close> is exported and is called by no function of the package: neither
  \<open>New\<close> nor \<open>write\<close> ever truncates.
\<close>

definition OpenWronlyTrunca :: "RotateFile \<Rightarrow> world \<Rightarrow> error option \<times> RotateFile \<times> world" where
  "OpenWronlyTrunca f w =
     (case os_OpenFile_trunc (Name f) w of
        (Inl err, w1) \<Rightarrow> (Some err, f, w1)
      | (Inr r, w1) \<Rightarrow> (None, f\<lparr>File := Some r\<rparr>, w1))"

definition OpenWronlyCreateAppend :: "RotateFile \<Rightarrow> world \<Rightarrow> error option \<times> RotateFile \<times> world" where
  "OpenWronlyCreateAppend f w =
     (case os_OpenFile_append (Name f) w of
        (Inl err, w1) \<Rightarrow> (Some err, f, w1)
      | (Inr r, w1) \<Rightarrow> (None, f\<lparr>File := Some r\<rparr>, w1))"

text \<open>
  The loop \<open>for i := f.Backup - 1; i > 0; i--\<close> of \<open>write\<close>: \<open>shift_backups name k\<close> runs the
  body for \<open>i = k, k - 1, .., 1\<close> and stops at the first error.
\<close>

fun shift_backups :: "string \<Rightarrow> nat \<Rightarrow> world \<Rightarrow> error option \<times> world" where
  "shift_backups name 0 w = (None, w)"
| "shift_backups name (Suc k) w =
     (case isFileExist (backup_name name (Suc k)) w of
        (False, w1) \<Rightarrow> shift_backups name k w1
      | (True, w1) \<Rightarrow>
          (case isFileExist (backup_name name (Suc k + 1)) w1 of
             (False, w2) \<Rightarrow>
               (case os_Rename (backup_name name (Suc k)) (backup_name name (Suc k + 1)) w2 of
                  (Some err, w3) \<Rightarrow> (Some err, w3)
                | (None, w3) \<Rightarrow> shift_backups name k w3)
           | (True, w2) \<Rightarrow>
               (case os_Remove (backup_name name (Suc k + 1)) w2 of
                  (Some err, w3) \<Rightarrow> (Some err, w3)
                | (None, w3) \<Rightarrow>
                    (case os_Rename (backup_name name (Suc k)) (backup_name name (Suc k + 1)) w3 of
                       (Some err, w4) \<Rightarrow> (Some err, w4)
                     | (None, w4) \<Rightarrow> shift_backups name k w4))))"

text \<open>The block \<open>if f.Backup > 0 { .. }\<close> of \<open>write\<close>: the loop, then the active file to \<open>.1\<close>.\<close>

definition rotate_backups :: "RotateFile \<Rightarrow> world \<Rightarrow> error option \<times> world" where
  "rotate_backups f w =
     (if Backup f > 0 then
        (case shift_backups (Name f) (nat (Backup f - 1)) w of
           (Some err, w1) \<Rightarrow> (Some err, w1)
         | (None, w1) \<Rightarrow>
             (case isFileExist (backup_name (Name f) 1) w1 of
                (False, w2) \<Rightarrow> os_Rename (Name f) (backup_name (Name f) 1) w2
              | (True, w2) \<Rightarrow>
                  (case os_Remove (backup_name (Name f) 1) w2 of
                     (Some err, w3) \<Rightarrow> (Some err, w3)
                   | (None, w3) \<Rightarrow> os_Rename (Name f) (backup_name (Name f) 1) w3)))
      else (None, w))"

text \<open>
  The method \<open>write\<close> (lower case, the private one; \<open>write\<close> is a command word of
  Isabelle, so the constant is \<open>write_priv\<close>). The slice \<open>b[:capSpace]\<close> is evaluated only when \<open>capSpace < len(b)\<close>, so it
  is within the slice unless \<open>capSpace\<close> is negative, where Go panics before the call of
  \<open>File.Write\<close>.
\<close>

definition write_priv :: "RotateFile \<Rightarrow> bytes \<Rightarrow> world \<Rightarrow> (int \<times> error option) result \<times> RotateFile \<times> world" where
  "write_priv f b w =
     (let capSpace = CapLimit f - CapUsing f in
      if capSpace \<ge> int (length b) then
        (case file_Write (File f) b w of
           ((n, err), w1) \<Rightarrow>
             (Return (n, err), f\<lparr>CapUsing := CapUsing f + n, UpdateAt := time_Now w1\<rparr>, w1))
      else if capSpace < 0 then (Panic SliceBounds, f, w)
      else
        (case file_Write (File f) (take (nat capSpace) b) w of
           ((writeN, Some err), w1) \<Rightarrow>
             (Return (writeN, Some err),
              f\<lparr>CapUsing := CapUsing f + writeN, UpdateAt := time_Now w1\<rparr>, w1)
         | ((writeN, None), w1) \<Rightarrow>
             (let f1 = f\<lparr>CapUsing := CapUsing f + writeN, UpdateAt := time_Now w1\<rparr> in
              case file_Close (File f1) w1 of
                (Some err, ho, w2) \<Rightarrow> (Return (writeN, Some err), f1\<lparr>File := ho\<rparr>, w2)
              | (None, ho, w2) \<Rightarrow>
                  (let f2 = f1\<lparr>File := ho\<rparr> in
                   case rotate_backups f2 w2 of
                     (Some err, w3) \<Rightarrow> (Return (writeN, Some err), f2, w3)
                   | (None, w3) \<Rightarrow>
                       (case OpenWronlyCreateAppend f2 w3 of
                          (Some err, f3, w4) \<Rightarrow> (Return (writeN, Some err), f3, w4)
                        | (None, f3, w4) \<Rightarrow>
                            (case file_Write (File f3) (drop (nat capSpace) b) w4 of
                               ((writeN2, err), w5) \<Rightarrow>
                                 (Return (writeN + writeN2, err),
                                  f3\<lparr>CapUsing := writeN2, UpdateAt := time_Now w5\<rparr>, w5)))))))"

text \<open>
  \<open>Write\<close> is \<open>doa.Try2(f.write(b)).(int)\<close>. \<open>doa.Try2(a, err)\<close> of the imported package
  \<open>github.com/mohanson/doa\<close> panics with \<open>err\<close> when it is not nil and returns \<open>a\<close> otherwise
  (the source: "Panic directly to avoid errors being eaten").
\<close>

definition Try2 :: "int \<times> error option \<Rightarrow> int result" where
  "Try2 r = (case r of (a, Some err) \<Rightarrow> Panic (PanicErr err) | (a, None) \<Rightarrow> Return a)"

definition Write :: "RotateFile \<Rightarrow> bytes \<Rightarrow> world \<Rightarrow> (int \<times> error option) result \<times> RotateFile \<times> world" where
  "Write f b w =
     (case write_priv f b w of
        (Panic p, f1, w1) \<Rightarrow> (Panic p, f1, w1)
      | (Return r, f1, w1) \<Rightarrow>
          (case Try2 r of
             Panic p \<Rightarrow> (Panic p, f1, w1)
           | Return n \<Rightarrow> (Return (n, None), f1, w1)))"

text \<open>\<open>Close\<close> closes the file of the sink.\<close>

definition Close :: "RotateFile \<Rightarrow> world \<Rightarrow> error option \<times> RotateFile \<times> world" where
  "Close f w = (case file_Close (File f) w of (err, ho, w1) \<Rightarrow> (err, f\<lparr>File := ho\<rparr>, w1))"

text \<open>
  \<open>New\<close> returns a pointer and an error: \<open>(r, err)\<close> when the open fails, \<open>(nil, err)\<close> when
  the stat fails, \<open>(r, nil)\<close> otherwise. The zero \<open>time.Time\<close> is \<open>0\<close>.
\<close>

definition New :: "string \<Rightarrow> int \<Rightarrow> int \<Rightarrow> world \<Rightarrow> (RotateFile option \<times> error option) \<times> world" where
  "New name backup capsize w =
     (let r = \<lparr>Backup = backup, CapLimit = capsize, CapUsing = 0, File = None, Name = name,
               UpdateAt = 0\<rparr> in
      case OpenWronlyCreateAppend r w of
        (Some err, r1, w1) \<Rightarrow> ((Some r1, Some err), w1)
      | (None, r1, w1) \<Rightarrow>
          (case file_Stat (File r1) w1 of
             (Inl err, w2) \<Rightarrow> ((None, Some err), w2)
           | (Inr (sz, mt), w2) \<Rightarrow>
               ((Some (r1\<lparr>CapUsing := sz, UpdateAt := mt\<rparr>), None), w2)))"

subsection \<open>A caller writing several times\<close>

text \<open>
  The calls \<open>f.write(b)\<close> for each \<open>b\<close> of a list, in order. The caller goes on after an
  error return and is stopped by a panic. The results of the calls are collected.
\<close>

fun writes :: "RotateFile \<Rightarrow> bytes list \<Rightarrow> world \<Rightarrow> (int \<times> error option) result list \<times> RotateFile \<times> world" where
  "writes f [] w = ([], f, w)"
| "writes f (b # bs) w =
     (case write_priv f b w of
        (Panic p, f1, w1) \<Rightarrow> ([Panic p], f1, w1)
      | (Return r, f1, w1) \<Rightarrow>
          (case writes f1 bs w1 of (rs, f2, w2) \<Rightarrow> (Return r # rs, f2, w2)))"

text \<open>The system calls that make up a rotation, and those that change the directory.\<close>

fun is_rotation_event :: "event \<Rightarrow> bool" where
  "is_rotation_event EvClose = True"
| "is_rotation_event (EvOpen n) = True"
| "is_rotation_event (EvRename s d) = True"
| "is_rotation_event (EvRemove n) = True"
| "is_rotation_event e = False"

fun is_rename_or_remove :: "event \<Rightarrow> bool" where
  "is_rename_or_remove (EvRename s d) = True"
| "is_rename_or_remove (EvRemove n) = True"
| "is_rename_or_remove e = False"

text \<open>The events of a run from \<open>w\<close> to \<open>w'\<close>.\<close>

definition new_events :: "world \<Rightarrow> world \<Rightarrow> event list" where
  "new_events w w' = drop (length (trace w)) (trace w')"

text \<open>An empty file system at time \<open>0\<close>, with a given schedule of faults.\<close>

definition empty_world :: "fault list \<Rightarrow> world" where
  "empty_world fs =
     \<lparr>names = (\<lambda>n. None), data = (\<lambda>i. []), mtime = (\<lambda>i. 0), next_ino = 0, clock = 0,
      faults = fs, trace = []\<rparr>"

text \<open>The content of the file found under a name, if there is one.\<close>

definition content :: "world \<Rightarrow> string \<Rightarrow> bytes option" where
  "content w name = map_option (data w) (names w name)"

text \<open>
  A sink on the file \<open>log\<close> with an open handle on inode \<open>0\<close>, and a world where \<open>log\<close> is
  inode \<open>0\<close> with a given content: the state after \<open>New\<close>, for the examples.
\<close>

definition demo_sink :: "int \<Rightarrow> int \<Rightarrow> int \<Rightarrow> RotateFile" where
  "demo_sink backup limit used =
     \<lparr>Backup = backup, CapLimit = limit, CapUsing = used,
      File = Some \<lparr>h_ino = 0, h_closed = False\<rparr>, Name = ''log'', UpdateAt = 0\<rparr>"

definition demo_world :: "bytes \<Rightarrow> fault list \<Rightarrow> world" where
  "demo_world c fs =
     \<lparr>names = (\<lambda>n. None)(''log'' := Some 0), data = (\<lambda>i. [])(0 := c), mtime = (\<lambda>i. 0),
      next_ino = 1, clock = 1, faults = fs, trace = []\<rparr>"

text \<open>
  Kinds of events: the calls on the directory, a rename that moves a given name away,
  and the number of events of a kind in a run.
\<close>

fun is_dir_event :: "event \<Rightarrow> bool" where
  "is_dir_event (EvStat n) = True"
| "is_dir_event (EvRemove n) = True"
| "is_dir_event (EvRename s d) = True"
| "is_dir_event e = False"

fun renames_from :: "string \<Rightarrow> event \<Rightarrow> bool" where
  "renames_from name (EvRename s d) = (s = name)"
| "renames_from name e = False"


definition shuffle_only :: "string \<Rightarrow> event list \<Rightarrow> bool" where
  "shuffle_only name evs = (\<forall>e \<in> set evs. is_dir_event e \<and> \<not> renames_from name e)"

text \<open>A call that returned without an error.\<close>

fun succeeded :: "(int \<times> error option) result \<Rightarrow> bool" where
  "succeeded (Return (n, None)) = True"
| "succeeded r = False"

text \<open>
  The sink's handle is on the file found under the sink's name (inode \<open>i\<close>); and the bytes
  a call accepted: the first \<open>n\<close> of its input when it returned \<open>n\<close>, none when it panicked.
\<close>

definition linked :: "RotateFile \<Rightarrow> world \<Rightarrow> ino \<Rightarrow> bool" where
  "linked f w i =
     (names w (Name f) = Some i \<and> (case File f of None \<Rightarrow> False | Some h \<Rightarrow> h_ino h = i))"

fun accepted :: "(int \<times> error option) result \<Rightarrow> bytes \<Rightarrow> bytes" where
  "accepted (Return (n, err)) b = take (nat n) b"
| "accepted (Panic p) b = []"


text \<open>The directory entries outside a set of names are the same in two worlds.\<close>

definition names_outside :: "string set \<Rightarrow> world \<Rightarrow> world \<Rightarrow> bool" where
  "names_outside S w w' = (\<forall>n. n \<notin> S \<longrightarrow> names w' n = names w n)"




section \<open>Properties\<close>

subsection \<open>Basic facts\<close>

lemmas prim_defs = next_fault_def sys_def os_Stat_def os_Remove_def os_Rename_def
  os_OpenFile_append_def file_Write_def file_Close_def file_Stat_def time_Now_def
  isFileExist_def OpenWronlyCreateAppend_def

lemmas demo_defs = demo_sink_def demo_world_def empty_world_def content_def new_events_def

lemma backup_name_Suc0: "backup_name n (Suc 0) = n @ ''.1''"
  by (simp add: backup_name_def itoa.simps digit_char_def)

lemma backup_name_Suc1: "backup_name n (Suc (Suc 0)) = n @ ''.2''"
  by (simp add: backup_name_def itoa.simps digit_char_def)

lemma file_Write_ok_len:
  "file_Write ho b w = ((n, None), w') \<Longrightarrow> n = int (length b)"
  by (auto simp: file_Write_def split: option.splits if_splits fault.splits)

lemma file_Write_bounds:
  "file_Write ho b w = ((n, e), w') \<Longrightarrow> 0 \<le> n \<and> n \<le> int (length b)"
  by (auto simp: file_Write_def split: option.splits if_splits fault.splits)




lemmas run_defs = New_def write_priv_def rotate_backups_def prim_defs demo_defs Let_def
      backup_name_Suc0 backup_name_Suc1

subsection \<open>The system calls of a run\<close>





lemma trace_file_Write:
  "file_Write ho b w = (r, w') \<Longrightarrow>
   trace w' = trace w @ (case ho of None \<Rightarrow> [] | Some h \<Rightarrow> if h_closed h then [] else [EvWrite b])"
  by (auto simp: prim_defs split: option.splits fault.splits if_splits)

lemma trace_file_Write_ok:
  "file_Write ho b w = ((n, None), w') \<Longrightarrow> trace w' = trace w @ [EvWrite b]"
  by (auto simp: prim_defs split: option.splits fault.splits if_splits)



lemma shuffle_only_simps [simp]:
  "shuffle_only name []"
  "shuffle_only name (e # evs) = (is_dir_event e \<and> \<not> renames_from name e \<and> shuffle_only name evs)"
  "shuffle_only name (xs @ ys) = (shuffle_only name xs \<and> shuffle_only name ys)"
  by (auto simp: shuffle_only_def)




lemma write_priv_ok_len:
  "write_priv f b w = (Return (n, None), f', w') \<Longrightarrow> n = int (length b)"
  by (auto simp: write_priv_def Let_def OpenWronlyCreateAppend_def
      split: prod.splits option.splits if_splits sum.splits dest!: file_Write_ok_len)

subsection \<open>Limit zero\<close>

text \<open>
  C1 fails on the code. A sink made by \<open>New\<close> with limit \<open>0\<close> on a new file rotates on the
  first write of one byte: it closes the file, renames the empty \<open>log\<close> to \<open>log.1\<close>,
  reopens \<open>log\<close> and writes the byte there. \<open>CapUsing\<close> is then \<open>1\<close>, above the limit, so
  the second write panics.
\<close>

theorem zero_limit_rotates:
  "\<exists>f0 w0 f1 w1.
     New ''log'' 1 0 (empty_world []) = ((Some f0, None), w0) \<and> CapLimit f0 = 0 \<and>
     write_priv f0 ''a'' w0 = (Return (1, None), f1, w1) \<and>
     new_events w0 w1 =
       [EvWrite [], EvClose, EvStat ''log.1'', EvRename ''log'' ''log.1'', EvOpen ''log'',
        EvWrite ''a''] \<and>
     content w1 ''log.1'' = Some [] \<and> content w1 ''log'' = Some ''a'' \<and>
     write_priv f1 ''b'' w1 = (Panic SliceBounds, f1, w1)"
  by (simp add: run_defs)

subsection \<open>A write longer than the file\<close>




subsection \<open>The public entry point\<close>

text \<open>
  C3, refuted as stated: when the first system call of a write fails, \<open>Write\<close> does not
  return the error: it panics with it.
\<close>

theorem Write_error_counterexample:
  "fst (write_priv (demo_sink 1 10 0) ''a'' (demo_world [] [Fault 0])) = Return (0, Some EIO) \<and>
   fst (Write (demo_sink 1 10 0) ''a'' (demo_world [] [Fault 0])) = Panic (PanicErr EIO) \<and>
   fst (Write (demo_sink 1 10 0) ''a'' (demo_world [] [Fault 0])) \<noteq> Return (0, Some EIO)"
  by (simp add: Write_def Try2_def run_defs)

text \<open>
  C3, amended. Whenever \<open>write\<close> reports a failure of a system call, \<open>Write\<close> panics with
  that error, in the state \<open>write\<close> left; it never returns an error. A slice panic of
  \<open>write\<close> is passed on. When \<open>Write\<close> returns, the error is nil and the byte count is
  the length of the input.
\<close>

theorem Write_panics_on_error:
  "(write_priv f b w = (Return (n, Some e), f', w') \<longrightarrow>
      Write f b w = (Panic (PanicErr e), f', w')) \<and>
   (write_priv f b w = (Panic p, f', w') \<longrightarrow> Write f b w = (Panic p, f', w')) \<and>
   (write_priv f b w = (Return (n, None), f', w') \<longrightarrow>
      Write f b w = (Return (n, None), f', w') \<and> n = int (length b)) \<and>
   (Write f b w = (Return (m, err), f'', w'') \<longrightarrow>
      err = None \<and> m = int (length b) \<and> write_priv f b w = (Return (m, None), f'', w''))"
proof (intro conjI impI)
  assume "write_priv f b w = (Return (n, Some e), f', w')"
  then show "Write f b w = (Panic (PanicErr e), f', w')" by (simp add: Write_def Try2_def)
next
  assume "write_priv f b w = (Panic p, f', w')"
  then show "Write f b w = (Panic p, f', w')" by (simp add: Write_def)
next
  assume a: "write_priv f b w = (Return (n, None), f', w')"
  then show "Write f b w = (Return (n, None), f', w')" by (simp add: Write_def Try2_def)
  from a show "n = int (length b)" by (rule write_priv_ok_len)
next
  assume a: "Write f b w = (Return (m, err), f'', w'')"
  then have r: "err = None \<and> write_priv f b w = (Return (m, None), f'', w'')"
    by (auto simp: Write_def Try2_def split: prod.splits result.splits option.splits)
  then show "err = None" by simp
  from r show "write_priv f b w = (Return (m, None), f'', w'')" by simp
  from r show "m = int (length b)" using write_priv_ok_len by blast
qed

theorem Write_panics_on_error_witness:
  "fst (write_priv (demo_sink 1 10 0) ''a'' (demo_world [] [Fault 0])) = Return (0, Some EIO) \<and>
   Write (demo_sink 1 10 0) ''a'' (demo_world [] [Fault 0]) =
     (Panic (PanicErr EIO), snd (write_priv (demo_sink 1 10 0) ''a'' (demo_world [] [Fault 0]))) \<and>
   write_priv (demo_sink 1 2 3) [] (demo_world ''abc'' []) =
     (Panic SliceBounds, demo_sink 1 2 3, demo_world ''abc'' []) \<and>
   Write (demo_sink 1 2 3) [] (demo_world ''abc'' []) =
     (Panic SliceBounds, demo_sink 1 2 3, demo_world ''abc'' []) \<and>
   fst (write_priv (demo_sink 1 10 0) ''a'' (demo_world [] [])) = Return (1, None) \<and>
   Write (demo_sink 1 10 0) ''a'' (demo_world [] []) =
     (Return (1, None), snd (write_priv (demo_sink 1 10 0) ''a'' (demo_world [] []))) \<and>
   1 = int (length ''a'')"
proof -
  define f1 where "f1 = fst (snd (write_priv (demo_sink 1 10 0) ''a'' (demo_world [] [Fault 0])))"
  define w1 where "w1 = snd (snd (write_priv (demo_sink 1 10 0) ''a'' (demo_world [] [Fault 0])))"
  define f3 where "f3 = fst (snd (write_priv (demo_sink 1 10 0) ''a'' (demo_world [] [])))"
  define w3 where "w3 = snd (snd (write_priv (demo_sink 1 10 0) ''a'' (demo_world [] [])))"
  have e1: "fst (write_priv (demo_sink 1 10 0) ''a'' (demo_world [] [Fault 0])) = Return (0, Some EIO)"
    by (simp add: run_defs)
  then have h1: "write_priv (demo_sink 1 10 0) ''a'' (demo_world [] [Fault 0]) =
      (Return (0, Some EIO), f1, w1)"
    by (simp add: f1_def w1_def prod_eq_iff)
  have h2: "write_priv (demo_sink 1 2 3) [] (demo_world ''abc'' []) =
     (Panic SliceBounds, demo_sink 1 2 3, demo_world ''abc'' [])"
    by (simp add: write_priv_def demo_sink_def)
  have e3: "fst (write_priv (demo_sink 1 10 0) ''a'' (demo_world [] [])) = Return (1, None)"
    by (simp add: run_defs)
  then have h3: "write_priv (demo_sink 1 10 0) ''a'' (demo_world [] []) = (Return (1, None), f3, w3)"
    by (simp add: f3_def w3_def prod_eq_iff)
  have c1: "Write (demo_sink 1 10 0) ''a'' (demo_world [] [Fault 0]) = (Panic (PanicErr EIO), f1, w1)"
    using Write_panics_on_error [where f = "demo_sink 1 10 0" and b = "''a''"
        and w = "demo_world [] [Fault 0]" and n = 0 and e = EIO and f' = f1 and w' = w1] h1
    by blast
  have c2: "Write (demo_sink 1 2 3) [] (demo_world ''abc'' []) =
     (Panic SliceBounds, demo_sink 1 2 3, demo_world ''abc'' [])"
    using Write_panics_on_error [where f = "demo_sink 1 2 3" and b = "[]"
        and w = "demo_world ''abc'' []" and p = SliceBounds and f' = "demo_sink 1 2 3"
        and w' = "demo_world ''abc'' []"] h2
    by blast
  have c3: "Write (demo_sink 1 10 0) ''a'' (demo_world [] []) = (Return (1, None), f3, w3) \<and>
      1 = int (length ''a'')"
    using Write_panics_on_error [where f = "demo_sink 1 10 0" and b = "''a''"
        and w = "demo_world [] []" and n = 1 and f' = f3 and w' = w3] h3
    by blast
  have c4: "None = (None :: error option) \<and> 1 = int (length ''a'') \<and>
      write_priv (demo_sink 1 10 0) ''a'' (demo_world [] []) = (Return (1, None), f3, w3)"
    using Write_panics_on_error [where f = "demo_sink 1 10 0" and b = "''a''"
        and w = "demo_world [] []" and m = 1 and err = None and f'' = f3 and w'' = w3] c3
    by blast
  from e1 c1 h2 c2 e3 c3 show ?thesis
    by (simp add: f1_def w1_def f3_def w3_def)
qed

subsection \<open>Writes within the capacity\<close>

lemma write_priv_fits:
  "int (length b) \<le> CapLimit f - CapUsing f \<Longrightarrow>
   write_priv f b w =
     (case file_Write (File f) b w of
        ((n, err), w1) \<Rightarrow>
          (Return (n, err), f\<lparr>CapUsing := CapUsing f + n, UpdateAt := time_Now w1\<rparr>, w1))"
  by (simp add: write_priv_def)

lemma file_Write_ok_data:
  "file_Write ho b w = ((n, None), w') \<Longrightarrow>
   \<exists>h. ho = Some h \<and> \<not> h_closed h \<and> data w' = (data w)(h_ino h := data w (h_ino h) @ b) \<and>
       names w' = names w"
  by (auto simp: prim_defs split: option.splits fault.splits if_splits)

lemma writes_within_capacity_events:
  assumes "CapUsing f + int (length (concat bs)) \<le> CapLimit f"
    and "writes f bs w = (rs, f', w')"
  shows "\<exists>evs. trace w' = trace w @ evs \<and> (\<forall>e \<in> set evs. \<not> is_rotation_event e) \<and>
           File f' = File f \<and> CapLimit f' = CapLimit f"
  using assms
proof (induction bs arbitrary: f w rs)
  case Nil
  then show ?case by simp
next
  case (Cons b bs)
  obtain n err w1 where fw: "file_Write (File f) b w = ((n, err), w1)"
    by (metis prod.exhaust)
  define f1 where "f1 = f\<lparr>CapUsing := CapUsing f + n, UpdateAt := time_Now w1\<rparr>"
  have fit: "int (length b) \<le> CapLimit f - CapUsing f"
    using Cons.prems(1) by simp
  have w1: "write_priv f b w = (Return (n, err), f1, w1)"
    using fw by (simp add: write_priv_fits [OF fit] f1_def)
  obtain rs1 where rest: "writes f1 bs w1 = (rs1, f', w')"
    using Cons.prems(2) w1 by (auto split: prod.splits)
  have "n \<le> int (length b)" using file_Write_bounds [OF fw] by simp
  then have cap: "CapUsing f1 + int (length (concat bs)) \<le> CapLimit f1"
    using Cons.prems(1) by (simp add: f1_def)
  from Cons.IH [OF cap rest] obtain evs where
    ih: "trace w' = trace w1 @ evs" "\<forall>e \<in> set evs. \<not> is_rotation_event e"
      "File f' = File f1" "CapLimit f' = CapLimit f1"
    by blast
  have t1: "trace w1 = trace w @
      (case File f of None \<Rightarrow> [] | Some h \<Rightarrow> if h_closed h then [] else [EvWrite b])"
    using trace_file_Write [OF fw] .
  show ?case
    using ih t1 by (auto simp: f1_def split: option.splits)
qed

lemma writes_within_capacity_success:
  assumes "CapUsing f + int (length (concat bs)) \<le> CapLimit f"
    and "writes f bs w = (rs, f', w')" and "list_all succeeded rs"
  shows "length rs = length bs \<and> trace w' = trace w @ map EvWrite bs \<and>
         CapUsing f' = CapUsing f + int (length (concat bs)) \<and>
         (\<exists>h. File f = Some h \<and> \<not> h_closed h \<or> bs = []) \<and>
         (\<forall>h. File f = Some h \<longrightarrow> data w' (h_ino h) = data w (h_ino h) @ concat bs) \<and>
         names w' = names w"
  using assms
proof (induction bs arbitrary: f w rs)
  case Nil
  then show ?case by simp
next
  case (Cons b bs)
  obtain n err w1 where fw: "file_Write (File f) b w = ((n, err), w1)"
    by (metis prod.exhaust)
  define f1 where "f1 = f\<lparr>CapUsing := CapUsing f + n, UpdateAt := time_Now w1\<rparr>"
  have fit: "int (length b) \<le> CapLimit f - CapUsing f"
    using Cons.prems(1) by simp
  have w1: "write_priv f b w = (Return (n, err), f1, w1)"
    using fw by (simp add: write_priv_fits [OF fit] f1_def)
  obtain rs1 where rest: "writes f1 bs w1 = (rs1, f', w')" and rs: "rs = Return (n, err) # rs1"
    using Cons.prems(2) w1 by (auto split: prod.splits)
  from Cons.prems(3) rs have err: "err = None" and ok1: "list_all succeeded rs1"
    by (cases err; simp)+
  have n: "n = int (length b)" using fw err file_Write_ok_len by blast
  have cap: "CapUsing f1 + int (length (concat bs)) \<le> CapLimit f1"
    using Cons.prems(1) n by (simp add: f1_def)
  note ih = Cons.IH [OF cap rest ok1]
  from fw err obtain h where h: "File f = Some h" "\<not> h_closed h"
    "data w1 = (data w)(h_ino h := data w (h_ino h) @ b)" "names w1 = names w"
    using file_Write_ok_data by blast
  have t1: "trace w1 = trace w @ [EvWrite b]"
    using fw err trace_file_Write_ok by blast
  show ?case
    using ih h t1 n rs by (simp add: f1_def)
qed

lemma writes_within_capacity_no_fault:
  assumes "CapUsing f + int (length (concat bs)) \<le> CapLimit f"
    and "writes f bs w = (rs, f', w')" and "faults w = []"
    and "File f = Some h" "\<not> h_closed h"
  shows "list_all succeeded rs"
  using assms
proof (induction bs arbitrary: f w rs)
  case Nil
  then show ?case by simp
next
  case (Cons b bs)
  define w1 where "w1 = snd (file_Write (File f) b w)"
  have fw: "file_Write (File f) b w = ((int (length b), None), w1)" and fl: "faults w1 = []"
    using Cons.prems(3,4,5) by (simp_all add: w1_def prim_defs)
  define f1 where "f1 = f\<lparr>CapUsing := CapUsing f + int (length b), UpdateAt := time_Now w1\<rparr>"
  have fit: "int (length b) \<le> CapLimit f - CapUsing f"
    using Cons.prems(1) by simp
  have w1: "write_priv f b w = (Return (int (length b), None), f1, w1)"
    using fw by (simp add: write_priv_fits [OF fit] f1_def)
  obtain rs1 where rest: "writes f1 bs w1 = (rs1, f', w')"
    and rs: "rs = Return (int (length b), None) # rs1"
    using Cons.prems(2) w1 by (auto split: prod.splits)
  have cap: "CapUsing f1 + int (length (concat bs)) \<le> CapLimit f1"
    using Cons.prems(1) by (simp add: f1_def)
  have "File f1 = Some h" using Cons.prems(4) by (simp add: f1_def)
  from Cons.IH [OF cap rest fl this Cons.prems(5)] rs show ?case by simp
qed

text \<open>
  C4. A sink with limit \<open>> 0\<close> and \<open>CapUsing = 0\<close> is written to several times, the lengths
  of the inputs adding up to at most the limit. Then no call closes, renames, removes or
  reopens anything, whatever fails. When every call succeeded, each call made exactly
  one system call, the write of its input, \<open>CapUsing\<close> is the sum of the lengths, and the
  file has grown by the inputs in order. With an open handle and no failing system call,
  every call does succeed.
\<close>

theorem writes_within_capacity:
  assumes "0 < CapLimit f" "CapUsing f = 0"
    and "int (sum_list (map length bs)) \<le> CapLimit f"
    and "writes f bs w = (rs, f', w')"
  shows "(\<forall>e \<in> set (new_events w w'). \<not> is_rotation_event e) \<and>
         (list_all succeeded rs \<longrightarrow>
            length rs = length bs \<and> new_events w w' = map EvWrite bs \<and>
            CapUsing f' = int (sum_list (map length bs)) \<and>
            (\<forall>h. File f = Some h \<longrightarrow> data w' (h_ino h) = data w (h_ino h) @ concat bs)) \<and>
         (faults w = [] \<and> (\<exists>h. File f = Some h \<and> \<not> h_closed h) \<longrightarrow> list_all succeeded rs)"
proof -
  have cap: "CapUsing f + int (length (concat bs)) \<le> CapLimit f"
    using assms(2,3) by (simp add: length_concat)
  have a: "\<forall>e \<in> set (new_events w w'). \<not> is_rotation_event e"
    using writes_within_capacity_events [OF cap assms(4)] by (auto simp: new_events_def)
  have b: "length rs = length bs \<and> new_events w w' = map EvWrite bs \<and>
            CapUsing f' = int (sum_list (map length bs)) \<and>
            (\<forall>h. File f = Some h \<longrightarrow> data w' (h_ino h) = data w (h_ino h) @ concat bs)"
    if "list_all succeeded rs"
    using writes_within_capacity_success [OF cap assms(4) that] assms(2)
    by (simp add: new_events_def length_concat)
  have c: "list_all succeeded rs" if "faults w = [] \<and> (\<exists>h. File f = Some h \<and> \<not> h_closed h)"
    using that writes_within_capacity_no_fault [OF cap assms(4)] by blast
  from a b c show ?thesis by blast
qed

theorem writes_within_capacity_witness:
  "0 < CapLimit (demo_sink 2 10 0) \<and> CapUsing (demo_sink 2 10 0) = 0 \<and>
   int (sum_list (map length [''abc'', [], ''defg''])) \<le> CapLimit (demo_sink 2 10 0) \<and>
   faults (demo_world [] []) = [] \<and>
   File (demo_sink 2 10 0) = Some \<lparr>h_ino = 0, h_closed = False\<rparr> \<and>
   (\<exists>rs f' w'. writes (demo_sink 2 10 0) [''abc'', [], ''defg''] (demo_world [] []) = (rs, f', w') \<and>
      list_all succeeded rs \<and> length rs = 3 \<and>
      new_events (demo_world [] []) w' = [EvWrite ''abc'', EvWrite [], EvWrite ''defg''] \<and>
      CapUsing f' = 7 \<and> data w' 0 = ''abcdefg'')"
proof -
  obtain rs f' w' where
    r: "writes (demo_sink 2 10 0) [''abc'', [], ''defg''] (demo_world [] []) = (rs, f', w')"
    by (metis prod.exhaust)
  have h: "0 < CapLimit (demo_sink 2 10 0)" "CapUsing (demo_sink 2 10 0) = 0"
    "int (sum_list (map length [''abc'', [], ''defg''])) \<le> CapLimit (demo_sink 2 10 0)"
    by (simp_all add: demo_sink_def)
  have g: "faults (demo_world [] []) = []"
    "File (demo_sink 2 10 0) = Some \<lparr>h_ino = 0, h_closed = False\<rparr>"
    "data (demo_world [] []) 0 = []"
    by (simp_all add: demo_defs)
  from writes_within_capacity [OF h r] g
  have "list_all succeeded rs \<and> length rs = 3 \<and>
      new_events (demo_world [] []) w' = [EvWrite ''abc'', EvWrite [], EvWrite ''defg''] \<and>
      CapUsing f' = 7 \<and> data w' 0 = ''abcdefg''"
    by simp
  with r h g show ?thesis by blast
qed

subsection \<open>The rotation of the backups\<close>

lemma digit_char_inj:
  assumes "d < 10" "e < 10" "digit_char d = digit_char e"
  shows "d = e"
proof -
  have d: "d \<in> {0, 1, 2, 3, 4, 5, 6, 7, 8, 9}" using assms(1) by auto
  have e: "e \<in> {0, 1, 2, 3, 4, 5, 6, 7, 8, 9}" using assms(2) by auto
  from d e assms(3) show ?thesis
    by (auto simp: digit_char_def)
qed

lemma itoa_not_Nil: "itoa n \<noteq> []"
  by (subst itoa.simps) simp

lemma itoa_inj: "itoa n = itoa m \<Longrightarrow> n = m"
proof (induction n arbitrary: m rule: itoa.induct)
  case (1 n)
  show ?case
  proof (cases "n < 10")
    case True
    show ?thesis
    proof (cases "m < 10")
      case m: True
      from "1.prems" True m have "digit_char n = digit_char m"
        by (simp add: itoa.simps [of n] itoa.simps [of m])
      with True m show ?thesis by (rule digit_char_inj)
    next
      case False
      with "1.prems" True have "[digit_char n] = itoa (m div 10) @ [digit_char (m mod 10)]"
        by (simp add: itoa.simps [of n] itoa.simps [of m])
      then have "itoa (m div 10) = []" by (simp add: Cons_eq_append_conv)
      then show ?thesis using itoa_not_Nil by blast
    qed
  next
    case False
    show ?thesis
    proof (cases "m < 10")
      case True
      with "1.prems" False have "itoa (n div 10) @ [digit_char (n mod 10)] = [digit_char m]"
        by (simp add: itoa.simps [of n] itoa.simps [of m])
      then have "itoa (n div 10) = []" by (simp add: append_eq_Cons_conv)
      then show ?thesis using itoa_not_Nil by blast
    next
      case m: False
      with "1.prems" False have
        e: "itoa (n div 10) = itoa (m div 10)" "digit_char (n mod 10) = digit_char (m mod 10)"
        by (simp_all add: itoa.simps [of n] itoa.simps [of m])
      from "1.IH" [OF False e(1)] have "n div 10 = m div 10" .
      moreover have "n mod 10 = m mod 10"
        using e(2) by (intro digit_char_inj) simp_all
      ultimately show ?thesis by (metis div_mult_mod_eq)
    qed
  qed
qed

lemma backup_name_inj [simp]: "backup_name name i = backup_name name j \<longleftrightarrow> i = j"
  by (auto simp: backup_name_def dest: itoa_inj)

lemma backup_name_neq' [simp]: "backup_name name i \<noteq> name" "name \<noteq> backup_name name i"
  by (simp_all add: backup_name_def)

lemma sys_fields [simp]:
  "names (sys ev w) = names w" "data (sys ev w) = data w" "mtime (sys ev w) = mtime w"
  "faults (sys ev w) = tl (faults w)" "trace (sys ev w) = trace w @ [ev]"
  by (simp_all add: sys_def)







lemma names_outside_refl [simp]: "names_outside S w w"
  by (simp add: names_outside_def)


lemma names_outside_eq: "names w' = names w \<Longrightarrow> names_outside S w w'"
  by (simp add: names_outside_def)



















subsection \<open>No backups\<close>

lemma file_Write_effect:
  "file_Write (Some h) b w = ((n, e), w') \<Longrightarrow>
   names w' = names w \<and> data w' = (data w)(h_ino h := data w (h_ino h) @ take (nat n) b) \<and>
   (\<exists>evs. trace w' = trace w @ evs \<and> (\<forall>e \<in> set evs. \<not> is_rename_or_remove e))"
  by (auto simp: prim_defs min_def split: fault.splits if_splits)

lemma file_Close_effect:
  "file_Close (Some h) w = (e, ho, w') \<Longrightarrow>
   names w' = names w \<and> data w' = data w \<and> (\<exists>h'. ho = Some h' \<and> h_ino h' = h_ino h) \<and>
   (\<exists>evs. trace w' = trace w @ evs \<and> (\<forall>e \<in> set evs. \<not> is_rename_or_remove e))"
  by (auto simp: prim_defs split: fault.splits if_splits)

lemma reopen_existing_effect:
  "names w (Name f) = Some i \<Longrightarrow> OpenWronlyCreateAppend f w = (e, f', w') \<Longrightarrow>
   names w' = names w \<and> data w' = data w \<and>
   (case e of Some x \<Rightarrow> f' = f | None \<Rightarrow> f' = f\<lparr>File := Some \<lparr>h_ino = i, h_closed = False\<rparr>\<rparr>) \<and>
   trace w' = trace w @ [EvOpen (Name f)]"
  by (auto simp: prim_defs split: fault.splits if_splits)

lemma rotate_backups_none: "Backup f = 0 \<Longrightarrow> rotate_backups f w = (None, w)"
  by (simp add: rotate_backups_def)

lemma write_priv_no_backup_step:
  assumes "Backup f = 0" "linked f w i" "write_priv f b w = (r, f', w')"
  shows "\<exists>evs. trace w' = trace w @ evs \<and> (\<forall>e \<in> set evs. \<not> is_rename_or_remove e) \<and>
           names w' = names w \<and> linked f' w' i \<and> data w' i = data w i @ accepted r b \<and>
           Backup f' = 0"
proof -
  from assms(2) obtain h where h: "File f = Some h" "h_ino h = i" "names w (Name f) = Some i"
    by (auto simp: linked_def split: option.splits)
  define cs where "cs = CapLimit f - CapUsing f"
  consider (fits) "int (length b) \<le> cs" | (neg) "cs < int (length b)" "cs < 0"
    | (over) "0 \<le> cs" "cs < int (length b)"
    by linarith
  then show ?thesis
  proof cases
    case fits
    obtain n e w1 where fw: "file_Write (Some h) b w = ((n, e), w1)"
      by (metis prod.exhaust)
    with fits assms(3) h(1) have r: "r = Return (n, e)" "w' = w1"
      "f' = f\<lparr>CapUsing := CapUsing f + n, UpdateAt := time_Now w1\<rparr>"
      by (auto simp: write_priv_fits cs_def)
    from file_Write_effect [OF fw] show ?thesis
      using r h assms(1) by (auto simp: linked_def)
  next
    case neg
    with assms(3) have "r = Panic SliceBounds" "f' = f" "w' = w"
      by (auto simp: write_priv_def cs_def Let_def)
    then show ?thesis using assms(1,2) by simp
  next
    case over
    obtain n1 e1 w1 where fw: "file_Write (Some h) (take (nat cs) b) w = ((n1, e1), w1)"
      by (metis prod.exhaust)
    note ef = file_Write_effect [OF fw]
    define f1 where "f1 = f\<lparr>CapUsing := CapUsing f + n1, UpdateAt := time_Now w1\<rparr>"
    have n1b: "0 \<le> n1" "n1 \<le> cs" using file_Write_bounds [OF fw] over by simp_all
    have tk: "take (nat n1) (take (nat cs) b) = take (nat n1) b"
      using n1b by (simp add: min_def)
    show ?thesis
    proof (cases e1)
      case (Some x)
      with over assms(3) h(1) fw have "r = Return (n1, Some x)" "w' = w1" "f' = f1"
        by (auto simp: write_priv_def cs_def Let_def f1_def)
      then show ?thesis using ef h assms(1) tk by (auto simp: linked_def f1_def)
    next
      case None
      then have n1: "n1 = cs" using fw file_Write_ok_len over by fastforce
      obtain e2 ho w2 where cl: "file_Close (Some h) w1 = (e2, ho, w2)"
        by (metis prod.exhaust)
      note ec = file_Close_effect [OF cl]
      from ec obtain h' where h': "ho = Some h'" "h_ino h' = i" using h(2) by auto
      show ?thesis
      proof (cases e2)
        case (Some x)
        with over assms(3) h(1) fw None cl have "r = Return (n1, Some x)" "w' = w2"
          "f' = f1\<lparr>File := ho\<rparr>"
          by (auto simp: write_priv_def cs_def Let_def f1_def)
        then show ?thesis using ef ec h h' assms(1) tk by (auto simp: linked_def f1_def)
      next
        case None2: None
        define f2 where "f2 = f1\<lparr>File := ho\<rparr>"
        have nm: "names w2 (Name f2) = Some i" using ef ec h by (simp add: f2_def f1_def)
        have rb: "rotate_backups f2 w2 = (None, w2)"
          using assms(1) by (simp add: rotate_backups_none f2_def f1_def)
        obtain e3 f3 w3 where op: "OpenWronlyCreateAppend f2 w2 = (e3, f3, w3)"
          by (metis prod.exhaust)
        note eo = reopen_existing_effect [OF nm op]
        show ?thesis
        proof (cases e3)
          case (Some x)
          with over assms(3) h(1) fw None cl None2 rb op have "r = Return (n1, Some x)" "w' = w3"
            "f' = f3"
            by (auto simp: write_priv_def cs_def Let_def f1_def f2_def)
          then show ?thesis using ef ec eo Some h h' assms(1) tk
            by (auto simp: linked_def f1_def f2_def)
        next
          case None3: None
          then have f3: "f3 = f2\<lparr>File := Some \<lparr>h_ino = i, h_closed = False\<rparr>\<rparr>"
            using eo by simp
          obtain n4 e4 w4 where fw2: "file_Write (File f3) (drop (nat cs) b) w3 = ((n4, e4), w4)"
            by (metis prod.exhaust)
          then have fw2': "file_Write (Some \<lparr>h_ino = i, h_closed = False\<rparr>) (drop (nat cs) b) w3 = ((n4, e4), w4)"
            by (simp add: f3)
          note ef2 = file_Write_effect [OF fw2']
          have n4b: "0 \<le> n4" using file_Write_bounds [OF fw2] by simp
          from over assms(3) h(1) fw None cl None2 rb op None3 fw2
          have res: "r = Return (n1 + n4, e4)" "w' = w4"
            "f' = f3\<lparr>CapUsing := n4, UpdateAt := time_Now w4\<rparr>"
            by (auto simp: write_priv_def cs_def Let_def f1_def f2_def)
          have "take (nat (n1 + n4)) b = take (nat cs) b @ take (nat n4) (drop (nat cs) b)"
            using n1 n4b over by (simp add: nat_add_distrib take_add)
          then show ?thesis using res ef ec eo ef2 None3 h h' assms(1) n1
            by (auto simp: linked_def f1_def f2_def f3)
        qed
      qed
    qed
  qed
qed

lemma New_linked:
  "New name backup capsize w = ((Some r, None), w') \<Longrightarrow>
   Backup r = backup \<and> (\<exists>i. linked r w' i)"
  by (auto simp: New_def prim_defs Let_def linked_def
      split: fault.splits prod.splits option.splits sum.splits if_splits)

lemma writes_no_backup:
  assumes "Backup f = 0" "linked f w i" "writes f bs w = (rs, f', w')"
  shows "\<exists>evs. trace w' = trace w @ evs \<and> (\<forall>e \<in> set evs. \<not> is_rename_or_remove e) \<and>
           names w' = names w \<and> linked f' w' i \<and>
           data w' i = data w i @ concat (map (\<lambda>(r, b). accepted r b) (zip rs bs))"
  using assms
proof (induction bs arbitrary: f w rs)
  case Nil
  then show ?case by simp
next
  case (Cons b bs)
  obtain r f1 w1 where w1: "write_priv f b w = (r, f1, w1)"
    by (metis prod.exhaust)
  from write_priv_no_backup_step [OF Cons.prems(1,2) w1] obtain evs1 where
    s: "trace w1 = trace w @ evs1" "\<forall>e \<in> set evs1. \<not> is_rename_or_remove e"
      "names w1 = names w" "linked f1 w1 i" "data w1 i = data w i @ accepted r b" "Backup f1 = 0"
    by blast
  show ?case
  proof (cases r)
    case (Panic p)
    with Cons.prems(3) w1 have "rs = [Panic p]" "f' = f1" "w' = w1" by auto
    with s Panic show ?thesis by simp
  next
    case (Return x)
    with Cons.prems(3) w1 obtain rs1 where
      rest: "writes f1 bs w1 = (rs1, f', w')" and rs: "rs = Return x # rs1"
      by (auto split: prod.splits)
    from Cons.IH [OF s(6) s(4) rest] obtain evs2 where
      ih: "trace w' = trace w1 @ evs2" "\<forall>e \<in> set evs2. \<not> is_rename_or_remove e"
        "names w' = names w1" "linked f' w' i"
        "data w' i = data w1 i @ concat (map (\<lambda>(r, b). accepted r b) (zip rs1 bs))"
      by blast
    show ?thesis using s ih rs Return by auto
  qed
qed

text \<open>
  C6. A sink with \<open>Backup = 0\<close> whose handle is on the file at its path is written to
  several times, whatever the limit and whatever fails. No call renames or removes a
  file, the directory is as before, the handle is still on the file at the path, and
  the content of that file is the old content followed by what each call accepted
  (the first \<open>n\<close> bytes of its input, for a call that returned \<open>n\<close>): nothing is
  truncated or discarded.
\<close>

theorem no_backup_appends:
  assumes "Backup f = 0" "linked f w i" "writes f bs w = (rs, f', w')"
  shows "(\<forall>e \<in> set (new_events w w'). \<not> is_rename_or_remove e) \<and>
         names w' = names w \<and> linked f' w' i \<and>
         data w' i = data w i @ concat (map (\<lambda>(r, b). accepted r b) (zip rs bs))"
  using writes_no_backup [OF assms] by (auto simp: new_events_def)

theorem no_backup_appends_witness:
  "Backup (demo_sink 0 2 0) = 0 \<and> linked (demo_sink 0 2 0) (demo_world ''xy'' []) 0 \<and>
   (\<exists>f' w'. writes (demo_sink 0 2 0) [''abc'', ''de''] (demo_world ''xy'' []) =
        ([Return (3, None), Return (2, None)], f', w') \<and>
      new_events (demo_world ''xy'' []) w' =
        [EvWrite ''ab'', EvClose, EvOpen ''log'', EvWrite ''c'',
         EvWrite ''d'', EvClose, EvOpen ''log'', EvWrite ''e''] \<and>
      (\<forall>e \<in> set (new_events (demo_world ''xy'' []) w'). \<not> is_rename_or_remove e) \<and>
      names w' = names (demo_world ''xy'' []) \<and> linked f' w' 0 \<and>
      data w' 0 = ''xyabcde'')"
proof -
  define f' where
    "f' = fst (snd (writes (demo_sink 0 2 0) [''abc'', ''de''] (demo_world ''xy'' [])))"
  define w' where
    "w' = snd (snd (writes (demo_sink 0 2 0) [''abc'', ''de''] (demo_world ''xy'' [])))"
  have "fst (writes (demo_sink 0 2 0) [''abc'', ''de''] (demo_world ''xy'' [])) =
      [Return (3, None), Return (2, None)]"
    by (simp add: run_defs)
  then have r: "writes (demo_sink 0 2 0) [''abc'', ''de''] (demo_world ''xy'' []) =
      ([Return (3, None), Return (2, None)], f', w')"
    by (simp add: f'_def w'_def prod_eq_iff)
  have h: "Backup (demo_sink 0 2 0) = 0" "linked (demo_sink 0 2 0) (demo_world ''xy'' []) 0"
    by (simp_all add: demo_defs linked_def)
  have t: "new_events (demo_world ''xy'' []) w' =
        [EvWrite ''ab'', EvClose, EvOpen ''log'', EvWrite ''c'',
         EvWrite ''d'', EvClose, EvOpen ''log'', EvWrite ''e'']"
    by (simp add: w'_def run_defs)
  have d: "data (demo_world ''xy'' []) 0 = ''xy''" by (simp add: demo_defs)
  from no_backup_appends [OF h r] have
    "(\<forall>e \<in> set (new_events (demo_world ''xy'' []) w'). \<not> is_rename_or_remove e) \<and>
      names w' = names (demo_world ''xy'' []) \<and> linked f' w' 0 \<and>
      data w' 0 = ''xyabcde''"
    by (simp add: d)
  with h r t show ?thesis by blast
qed

subsection \<open>Construction\<close>

text \<open>
  C7. \<open>New\<close> opens the path with \<open>O_CREATE|O_APPEND\<close>. On a file that exists it changes
  neither the directory nor any content nor any modification time (nothing is
  truncated), and a sink it returns has \<open>CapUsing\<close> equal to the size of the file,
  \<open>UpdateAt\<close> equal to its modification time, and an open handle on it. On a missing
  path a returned sink has \<open>CapUsing = 0\<close> on a new empty file. When the open succeeds
  and the stat fails, \<open>New\<close> returns no sink and the error. When no system call fails,
  \<open>New\<close> returns a sink.
\<close>

theorem New_recovers_size_and_mtime:
  "(names w name = Some i \<and> New name backup capsize w = (res, w') \<longrightarrow>
      names w' = names w \<and> data w' = data w \<and> mtime w' = mtime w) \<and>
   (names w name = Some i \<and> New name backup capsize w = ((Some r, None), w') \<longrightarrow>
      CapUsing r = int (length (data w i)) \<and> UpdateAt r = mtime w i \<and>
      File r = Some \<lparr>h_ino = i, h_closed = False\<rparr> \<and>
      Backup r = backup \<and> CapLimit r = capsize \<and> Name r = name) \<and>
   (names w name = None \<and> New name backup capsize w = ((Some r, None), w') \<longrightarrow>
      content w' name = Some [] \<and> CapUsing r = 0 \<and>
      (\<forall>n. n \<noteq> name \<longrightarrow> names w' n = names w n)) \<and>
   (os_OpenFile_append name w = (Inr h, w1) \<and> file_Stat (Some h) w1 = (Inl e, w2) \<longrightarrow>
      New name backup capsize w = ((None, Some e), w2)) \<and>
   (faults w = [] \<longrightarrow> (\<exists>r0 w0. New name backup capsize w = ((Some r0, None), w0)))"
proof (intro conjI impI)
  assume "names w name = Some i \<and> New name backup capsize w = (res, w')"
  then show "names w' = names w" "data w' = data w" "mtime w' = mtime w"
    by (auto simp: New_def prim_defs Let_def split: fault.splits prod.splits option.splits
        sum.splits if_splits)
next
  assume a: "names w name = Some i \<and> New name backup capsize w = ((Some r, None), w')"
  then have "CapUsing r = int (length (data w i)) \<and> UpdateAt r = mtime w i \<and>
      File r = Some \<lparr>h_ino = i, h_closed = False\<rparr> \<and>
      Backup r = backup \<and> CapLimit r = capsize \<and> Name r = name"
    by (auto simp: New_def prim_defs Let_def split: fault.splits prod.splits option.splits
        sum.splits if_splits)
  then show "CapUsing r = int (length (data w i))" "UpdateAt r = mtime w i"
    "File r = Some \<lparr>h_ino = i, h_closed = False\<rparr>"
    "Backup r = backup" "CapLimit r = capsize" "Name r = name"
    by simp_all
next
  assume a: "names w name = None \<and> New name backup capsize w = ((Some r, None), w')"
  then have "content w' name = Some [] \<and> CapUsing r = 0 \<and>
      (\<forall>n. n \<noteq> name \<longrightarrow> names w' n = names w n)"
    by (auto simp: New_def prim_defs Let_def content_def split: fault.splits prod.splits
        option.splits sum.splits if_splits)
  then show "content w' name = Some []" "CapUsing r = 0"
    "\<forall>n. n \<noteq> name \<longrightarrow> names w' n = names w n"
    by simp_all
next
  assume "os_OpenFile_append name w = (Inr h, w1) \<and> file_Stat (Some h) w1 = (Inl e, w2)"
  then show "New name backup capsize w = ((None, Some e), w2)"
    by (simp add: New_def OpenWronlyCreateAppend_def Let_def)
next
  assume "faults w = []"
  then show "\<exists>r0 w0. New name backup capsize w = ((Some r0, None), w0)"
    by (simp add: New_def prim_defs Let_def split: option.splits)
qed

theorem New_recovers_size_and_mtime_witness:
  "names ((demo_world ''abc'' [])\<lparr>mtime := (\<lambda>i. 7)\<rparr>) ''log'' = Some 0 \<and>
   faults ((demo_world ''abc'' [])\<lparr>mtime := (\<lambda>i. 7)\<rparr>) = [] \<and>
   (\<exists>r w'. New ''log'' 2 10 ((demo_world ''abc'' [])\<lparr>mtime := (\<lambda>i. 7)\<rparr>) = ((Some r, None), w') \<and>
      CapUsing r = 3 \<and> UpdateAt r = 7 \<and> File r = Some \<lparr>h_ino = 0, h_closed = False\<rparr> \<and>
      content w' ''log'' = Some ''abc'') \<and>
   names (empty_world []) ''log'' = None \<and>
   (\<exists>r w'. New ''log'' 2 10 (empty_world []) = ((Some r, None), w') \<and>
      content w' ''log'' = Some [] \<and> CapUsing r = 0) \<and>
   fst (os_OpenFile_append ''log'' (demo_world ''abc'' [NoFault, Fault 0])) =
     Inr \<lparr>h_ino = 0, h_closed = False\<rparr> \<and>
   fst (New ''log'' 2 10 (demo_world ''abc'' [NoFault, Fault 0])) = (None, Some EIO)"
proof -
  define W where "W = (demo_world ''abc'' [])\<lparr>mtime := (\<lambda>i. 7)\<rparr>"
  have W: "names W ''log'' = Some 0" "faults W = []" "data W 0 = ''abc''" "mtime W 0 = 7"
    by (simp_all add: W_def demo_world_def)
  note t1 = New_recovers_size_and_mtime [where w = W and name = "''log''" and i = 0
      and backup = 2 and capsize = 10]
  from t1 W(2) obtain r0 w0 where n1: "New ''log'' 2 10 W = ((Some r0, None), w0)"
    by blast
  from New_recovers_size_and_mtime [where w = W and name = "''log''" and i = 0
      and backup = 2 and capsize = 10 and res = "(Some r0, None)" and w' = w0 and r = r0] W(1) n1
  have c1: "names w0 = names W \<and> data w0 = data W \<and> CapUsing r0 = int (length (data W 0)) \<and>
      UpdateAt r0 = mtime W 0 \<and> File r0 = Some \<lparr>h_ino = 0, h_closed = False\<rparr>"
    by blast
  then have p1: "\<exists>r w'. New ''log'' 2 10 W = ((Some r, None), w') \<and>
      CapUsing r = 3 \<and> UpdateAt r = 7 \<and> File r = Some \<lparr>h_ino = 0, h_closed = False\<rparr> \<and>
      content w' ''log'' = Some ''abc''"
    using n1 W by (auto simp: content_def)
  have E: "names (empty_world []) ''log'' = None" "faults (empty_world []) = []"
    by (simp_all add: empty_world_def)
  from New_recovers_size_and_mtime [where w = "empty_world []" and name = "''log''"
      and backup = 2 and capsize = 10] E(2)
  obtain r1 w1 where n2: "New ''log'' 2 10 (empty_world []) = ((Some r1, None), w1)"
    by blast
  from New_recovers_size_and_mtime [where w = "empty_world []" and name = "''log''"
      and backup = 2 and capsize = 10 and w' = w1 and r = r1] E(1) n2
  have p2: "\<exists>r w'. New ''log'' 2 10 (empty_world []) = ((Some r, None), w') \<and>
      content w' ''log'' = Some [] \<and> CapUsing r = 0"
    by blast
  define wa where "wa = snd (os_OpenFile_append ''log'' (demo_world ''abc'' [NoFault, Fault 0]))"
  define wb where "wb = snd (file_Stat (Some \<lparr>h_ino = 0, h_closed = False\<rparr>) wa)"
  have o0: "fst (os_OpenFile_append ''log'' (demo_world ''abc'' [NoFault, Fault 0])) =
     Inr \<lparr>h_ino = 0, h_closed = False\<rparr>"
    by (simp add: prim_defs demo_world_def)
  then have o: "os_OpenFile_append ''log'' (demo_world ''abc'' [NoFault, Fault 0]) =
      (Inr \<lparr>h_ino = 0, h_closed = False\<rparr>, wa)"
    by (simp add: wa_def prod_eq_iff)
  have "fst (file_Stat (Some \<lparr>h_ino = 0, h_closed = False\<rparr>) wa) = Inl EIO"
    by (simp add: wa_def prim_defs demo_world_def)
  then have st: "file_Stat (Some \<lparr>h_ino = 0, h_closed = False\<rparr>) wa = (Inl EIO, wb)"
    by (simp add: wb_def prod_eq_iff)
  from New_recovers_size_and_mtime [where w = "demo_world ''abc'' [NoFault, Fault 0]"
      and name = "''log''" and backup = 2 and capsize = 10
      and h = "\<lparr>h_ino = 0, h_closed = False\<rparr>" and ?w1.0 = wa and e = EIO and ?w2.0 = wb] o st
  have p3: "fst (New ''log'' 2 10 (demo_world ''abc'' [NoFault, Fault 0])) = (None, Some EIO)"
    by simp
  from W(1,2) p1 E(1) p2 o0 p3 show ?thesis
    unfolding W_def by blast
qed

subsection \<open>A failing partial write\<close>

text \<open>
  C8. In the overflow branch (\<open>0 \<le> capSpace < len(b)\<close>), when the write of the first
  \<open>capSpace\<close> bytes reports an error after \<open>k\<close> bytes, \<open>write\<close> returns \<open>(k, err)\<close>;
  \<open>CapUsing\<close> has grown by \<open>k\<close>, \<open>UpdateAt\<close> is the time after that write, the handle is
  the same (neither closed nor reopened), the world is the one the failed write left (no
  later system call), and the \<open>k\<close> bytes are in the file.
\<close>

theorem partial_write_error_accounting:
  assumes "0 \<le> CapLimit f - CapUsing f" "CapLimit f - CapUsing f < int (length b)"
    and "file_Write (File f) (take (nat (CapLimit f - CapUsing f)) b) w = ((k, Some e), w1)"
  shows "write_priv f b w =
           (Return (k, Some e), f\<lparr>CapUsing := CapUsing f + k, UpdateAt := time_Now w1\<rparr>, w1) \<and>
         0 \<le> k \<and> k \<le> CapLimit f - CapUsing f \<and>
         (\<forall>ev \<in> set (new_events w w1). \<not> is_rotation_event ev) \<and>
         (\<forall>h. File f = Some h \<longrightarrow> data w1 (h_ino h) = data w (h_ino h) @ take (nat k) b)"
proof -
  have r: "write_priv f b w =
           (Return (k, Some e), f\<lparr>CapUsing := CapUsing f + k, UpdateAt := time_Now w1\<rparr>, w1)"
    using assms by (simp add: write_priv_def Let_def)
  have b: "0 \<le> k \<and> k \<le> CapLimit f - CapUsing f"
    using file_Write_bounds [OF assms(3)] assms(1,2) by simp
  have t: "\<forall>ev \<in> set (new_events w w1). \<not> is_rotation_event ev"
    using trace_file_Write [OF assms(3)]
    by (auto simp: new_events_def split: option.splits if_splits)
  have d: "\<forall>h. File f = Some h \<longrightarrow> data w1 (h_ino h) = data w (h_ino h) @ take (nat k) b"
    using assms
    by (auto simp: file_Write_def sys_def min_def split: option.splits if_splits fault.splits)
  from r b t d show ?thesis by blast
qed

theorem partial_write_error_accounting_witness:
  "0 \<le> CapLimit (demo_sink 1 4 0) - CapUsing (demo_sink 1 4 0) \<and>
   CapLimit (demo_sink 1 4 0) - CapUsing (demo_sink 1 4 0) < int (length ''abcdef'') \<and>
   fst (file_Write (File (demo_sink 1 4 0)) (take 4 ''abcdef'') (demo_world [] [Fault 2])) =
     (2, Some EIO) \<and>
   fst (write_priv (demo_sink 1 4 0) ''abcdef'' (demo_world [] [Fault 2])) = Return (2, Some EIO) \<and>
   CapUsing (fst (snd (write_priv (demo_sink 1 4 0) ''abcdef'' (demo_world [] [Fault 2])))) = 2 \<and>
   File (fst (snd (write_priv (demo_sink 1 4 0) ''abcdef'' (demo_world [] [Fault 2])))) =
     Some \<lparr>h_ino = 0, h_closed = False\<rparr> \<and>
   trace (snd (snd (write_priv (demo_sink 1 4 0) ''abcdef'' (demo_world [] [Fault 2])))) =
     [EvWrite ''abcd''] \<and>
   content (snd (snd (write_priv (demo_sink 1 4 0) ''abcdef'' (demo_world [] [Fault 2])))) ''log'' =
     Some ''ab''"
proof -
  define w1 where
    "w1 = snd (file_Write (File (demo_sink 1 4 0)) (take 4 ''abcdef'') (demo_world [] [Fault 2]))"
  have v: "CapLimit (demo_sink 1 4 0) = 4" "CapUsing (demo_sink 1 4 0) = 0"
    by (simp_all add: demo_sink_def)
  have h1: "0 \<le> CapLimit (demo_sink 1 4 0) - CapUsing (demo_sink 1 4 0)"
    and h2: "CapLimit (demo_sink 1 4 0) - CapUsing (demo_sink 1 4 0) < int (length ''abcdef'')"
    by (simp_all add: v)
  have e0: "fst (file_Write (File (demo_sink 1 4 0)) (take 4 ''abcdef'') (demo_world [] [Fault 2])) =
     (2, Some EIO)"
    by (simp add: run_defs)
  then have e: "file_Write (File (demo_sink 1 4 0))
      (take (nat (CapLimit (demo_sink 1 4 0) - CapUsing (demo_sink 1 4 0))) ''abcdef'')
      (demo_world [] [Fault 2]) = ((2, Some EIO), w1)"
    by (simp add: w1_def v prod_eq_iff)
  have w1: "trace w1 = [EvWrite ''abcd'']" "content w1 ''log'' = Some ''ab''"
    by (simp_all add: w1_def run_defs)
  from partial_write_error_accounting [OF h1 h2 e] h1 h2 e0 w1 show ?thesis
    by (simp add: demo_sink_def)
qed

subsection \<open>The scenario of the specification\<close>

text \<open>
  C9. A sink opened with \<open>capacityLimit = 10\<close> and \<open>backupCount = 2\<close> on a path that does
  not exist yet, no system call failing. Writing \<open>12345\<close> makes one system call, the
  write (no rotation), and leaves \<open>log = 12345\<close>, \<open>CapUsing = 5\<close>. Writing \<open>67890AB\<close>
  then writes \<open>67890\<close>, closes, renames \<open>log\<close> to \<open>log.1\<close>, reopens \<open>log\<close> and writes \<open>AB\<close>:
  in the end \<open>log = AB\<close> with \<open>CapUsing = 2\<close>, \<open>log.1 = 1234567890\<close>, and there is no \<open>log.2\<close>.
\<close>

theorem scenario_cap10_backup2:
  "\<exists>f0 w0 f1 w1 f2 w2.
     New ''log'' 2 10 (empty_world []) = ((Some f0, None), w0) \<and>
     content w0 ''log'' = Some [] \<and> CapUsing f0 = 0 \<and>
     write_priv f0 ''12345'' w0 = (Return (5, None), f1, w1) \<and>
     new_events w0 w1 = [EvWrite ''12345''] \<and>
     content w1 ''log'' = Some ''12345'' \<and> CapUsing f1 = 5 \<and>
     write_priv f1 ''67890AB'' w1 = (Return (7, None), f2, w2) \<and>
     new_events w1 w2 =
       [EvWrite ''67890'', EvClose, EvStat ''log.1'', EvStat ''log.1'',
        EvRename ''log'' ''log.1'', EvOpen ''log'', EvWrite ''AB''] \<and>
     content w2 ''log'' = Some ''AB'' \<and> CapUsing f2 = 2 \<and>
     content w2 ''log.1'' = Some ''1234567890'' \<and>
     content w2 ''log.2'' = None"
  by (simp add: run_defs)

subsection \<open>A sink over its capacity\<close>



end
